theory Spec2Isabelle
  imports Main "HOL-Library.Word" "HOL-Library.Sublist"
begin

unbundle bit_operations_syntax

section \<open>JavaScript strings\<close>

text \<open>
  A JavaScript string is a sequence of UTF-16 code units; \<open>length\<close>, \<open>split\<close> and
  \<open>charCodeAt\<close> all count code units. \<open>str\<close> embeds an ASCII literal of the source.
\<close>

type_synonym code_unit = "16 word"
type_synonym jsstring = "code_unit list"

definition str :: "string \<Rightarrow> jsstring" where
  "str s = map of_char s"

definition bar :: code_unit where
  "bar = 0x7C"

definition newline :: code_unit where
  "newline = 0x0A"

definition amp :: code_unit where
  "amp = 0x26"

text \<open>
  \<open>String.prototype.split\<close> with a one-unit separator and no limit: the pieces between
  the separators, in order; a string without the separator (the empty string too) is the
  one piece.
\<close>

fun js_split :: "code_unit \<Rightarrow> jsstring \<Rightarrow> jsstring list" where
  "js_split sep [] = [] # []"
| "js_split sep (u # us) =
     (if u = sep then [] # js_split sep us
      else (case js_split sep us of
              [] \<Rightarrow> [u] # []
            | piece # pieces \<Rightarrow> (u # piece) # pieces))"

text \<open>Reading \<open>line[i]\<close>: \<open>undefined\<close> (\<open>None\<close>) beyond the end of the array.\<close>

definition at_index :: "'a list \<Rightarrow> nat \<Rightarrow> 'a option" where
  "at_index xs i = (if i < length xs then Some (xs ! i) else None)"

text \<open>A value substituted into a template literal: \<open>undefined\<close> prints as its name.\<close>

definition template_value :: "jsstring option \<Rightarrow> jsstring" where
  "template_value v = (case v of None \<Rightarrow> str ''undefined'' | Some s \<Rightarrow> s)"

section \<open>Node's querystring module\<close>

text \<open>
  \<open>querystring.stringify\<close> (line 6 of the source) is Node's own code. It is embedded here
  from \<open>lib/querystring.js\<close> and \<open>lib/internal/querystring.js\<close> of current Node: the
  table of units left alone, the table of percent escapes, the escaping loop, which
  throws a \<open>URIError\<close> when a surrogate is the last unit of the string, and the loop over
  the keys of the object, in which an empty array adds nothing to the output.
\<close>

datatype error = URIError

definition noEscape :: "nat \<Rightarrow> bool" where
  "noEscape c \<longleftrightarrow>
     c = 0x21 \<or> (0x27 \<le> c \<and> c \<le> 0x2A) \<or> c = 0x2D \<or> c = 0x2E \<or>
     (0x30 \<le> c \<and> c \<le> 0x39) \<or> (0x41 \<le> c \<and> c \<le> 0x5A) \<or> c = 0x5F \<or>
     (0x61 \<le> c \<and> c \<le> 0x7A) \<or> c = 0x7E"

definition hexDigit :: "nat \<Rightarrow> code_unit" where
  "hexDigit d = (if d < 10 then 0x30 + of_nat d else 0x37 + of_nat d)"

text \<open>\<open>hexTable[i]\<close> for \<open>i < 256\<close>: a percent sign and two upper-case hexadecimal digits.\<close>

definition hexTable :: "nat \<Rightarrow> jsstring" where
  "hexTable i = [0x25, hexDigit (i div 16), hexDigit (i mod 16)]"

definition emit :: "jsstring \<Rightarrow> error + jsstring \<Rightarrow> error + jsstring" where
  "emit out r = (case r of Inl e \<Rightarrow> Inl e | Inr rest \<Rightarrow> Inr (out @ rest))"

fun encodeStr :: "jsstring \<Rightarrow> error + jsstring" where
  "encodeStr [] = Inr []"
| "encodeStr (u # us) =
     (let c = unat u in
      if c < 0x80 then
        emit (if noEscape c then [u] else hexTable c) (encodeStr us)
      else if c < 0x800 then
        emit (hexTable (0xC0 OR drop_bit 6 c) @ hexTable (0x80 OR (c AND 0x3F)))
          (encodeStr us)
      else if c < 0xD800 \<or> c \<ge> 0xE000 then
        emit (hexTable (0xE0 OR drop_bit 12 c) @
              hexTable (0x80 OR (drop_bit 6 c AND 0x3F)) @
              hexTable (0x80 OR (c AND 0x3F)))
          (encodeStr us)
      else
        (case us of
           [] \<Rightarrow> Inl URIError
         | u2 # rest \<Rightarrow>
             (let c2 = unat u2 AND 0x3FF;
                  cp = 0x10000 + (push_bit 10 (c AND 0x3FF) OR c2)
              in emit (hexTable (0xF0 OR drop_bit 18 cp) @
                       hexTable (0x80 OR (drop_bit 12 cp AND 0x3F)) @
                       hexTable (0x80 OR (drop_bit 6 cp AND 0x3F)) @
                       hexTable (0x80 OR (cp AND 0x3F)))
                   (encodeStr rest))))"

definition qsEscape :: "jsstring \<Rightarrow> error + jsstring" where
  "qsEscape s = encodeStr s"

text \<open>
  The values \<open>stringify\<close> meets in this program: a string or \<open>undefined\<close>, and an array
  of strings.
\<close>

datatype qsvalue = Primitive "jsstring option" | Array "jsstring list"

definition stringifyPrimitive :: "jsstring option \<Rightarrow> jsstring" where
  "stringifyPrimitive v = (case v of Some s \<Rightarrow> s | None \<Rightarrow> [])"

definition separate :: "jsstring \<Rightarrow> jsstring" where
  "separate fields = (if fields \<noteq> [] then fields @ [amp] else fields)"

fun stringify_array :: "jsstring \<Rightarrow> jsstring list \<Rightarrow> nat \<Rightarrow> jsstring \<Rightarrow> error + jsstring" where
  "stringify_array ks [] j fields = Inr fields"
| "stringify_array ks (v # vs) j fields =
     (case qsEscape (stringifyPrimitive (Some v)) of
        Inl e \<Rightarrow> Inl e
      | Inr ev \<Rightarrow>
          stringify_array ks vs (Suc j) ((if j \<noteq> 0 then fields @ [amp] else fields) @ ks @ ev))"

fun stringify_keys :: "(jsstring \<times> qsvalue) list \<Rightarrow> jsstring \<Rightarrow> error + jsstring" where
  "stringify_keys [] fields = Inr fields"
| "stringify_keys ((k, v) # rest) fields =
     (case qsEscape k of
        Inl e \<Rightarrow> Inl e
      | Inr ek \<Rightarrow>
          (let ks = ek @ str ''=''
           in case v of
                Array vs \<Rightarrow>
                  (if vs = [] then stringify_keys rest fields
                   else (case stringify_array ks vs 0 (separate fields) of
                           Inl e \<Rightarrow> Inl e
                         | Inr fields' \<Rightarrow> stringify_keys rest fields'))
              | Primitive p \<Rightarrow>
                  (case qsEscape (stringifyPrimitive p) of
                     Inl e \<Rightarrow> Inl e
                   | Inr ev \<Rightarrow> stringify_keys rest (separate fields @ ks @ ev))))"

definition stringify :: "(jsstring \<times> qsvalue) list \<Rightarrow> error + jsstring" where
  "stringify obj = stringify_keys obj []"

section \<open>The client\<close>

record torrent =
  hash :: "jsstring option"
  title :: "jsstring option"
  category :: "jsstring option"
  link :: "jsstring option"
  magnet :: "jsstring option"

definition defaultTrackers :: "jsstring list" where
  "defaultTrackers = map str
     [''udp%3A%2F%2Ftracker.coppersurfer.tk:6969/announce&'',
      ''udp%3A%2F%2F9.rarbg.to:2710/announce&'',
      ''udp%3A%2F%2F9.rarbg.me:2710/announce&'',
      ''udp%3A%2F%2FIPv6.open-internet.nl:6969/announce&'',
      ''udp%3A%2F%2Ftracker.internetwarriors.net:1337/announce&'',
      ''udp%3A%2F%2Ftracker.opentrackr.org:1337/announce&'',
      ''udp%3A%2F%2Fp4p.arenabg.com:1337/announce&'',
      ''udp%3A%2F%2Feddie4.nl:6969/announce&'',
      ''udp%3A%2F%2Fshadowshq.yi.org:6969/announce&'',
      ''udp%3A%2F%2Ftracker.leechers-paradise.org:6969/announce&'',
      ''udp%3A%2F%2Fexplodie.org:6969/announce&'',
      ''udp%3A%2F%2Ftracker.tiny-vps.com:6969/announce&'',
      ''udp%3A%2F%2Finferno.demonoid.pw:3391/announce&'',
      ''udp%3A%2F%2Fipv4.tracker.harry.lu:80/announce&'',
      ''udp%3A%2F%2Fpeerfect.org:6969/announce&'',
      ''udp%3A%2F%2Ftracker.pirateparty.gr:6969/announce&'',
      ''udp%3A%2F%2Ftracker.vanitycore.co:6969/announce&'',
      ''udp%3A%2F%2Fopen.stealth.si:80/announce&'',
      ''udp%3A%2F%2Ftracker.torrent.eu.org:451&'',
      ''udp%3A%2F%2Ftracker.zer0day.to:1337/announce&'',
      ''udp%3A%2F%2Ftracker.open-internet.nl:6969/announce'']"

record EttvApi =
  baseUrl :: jsstring
  trackers :: "jsstring list"

text \<open>The constructor: an option left out takes its default.\<close>

definition constructor :: "jsstring option \<Rightarrow> jsstring list option \<Rightarrow> EttvApi" where
  "constructor b t =
     \<lparr> baseUrl = (case b of None \<Rightarrow> str ''https://www.ettv.tv/'' | Some u \<Rightarrow> u),
       trackers = (case t of None \<Rightarrow> defaultTrackers | Some l \<Rightarrow> l) \<rparr>"

datatype header = Hash | Title | Category | Link

definition headers :: "header list" where
  "headers = [Hash, Title, Category, Link]"

text \<open>\<open>acc[curr] = v\<close> on the object under construction.\<close>

fun assign :: "header \<Rightarrow> jsstring option \<Rightarrow> torrent \<Rightarrow> torrent" where
  "assign Hash v acc = acc\<lparr>hash := v\<rparr>"
| "assign Title v acc = acc\<lparr>title := v\<rparr>"
| "assign Category v acc = acc\<lparr>category := v\<rparr>"
| "assign Link v acc = acc\<lparr>link := v\<rparr>"

definition empty_object :: torrent where
  "empty_object = \<lparr> hash = None, title = None, category = None, link = None, magnet = None \<rparr>"

text \<open>\<open>headers.reduce((acc, curr, i) => { acc[curr] = line[i]; return acc }, {})\<close>.\<close>

definition reduce_headers :: "jsstring list \<Rightarrow> torrent" where
  "reduce_headers line =
     fold (\<lambda>(i, curr) acc. assign curr (at_index line i) acc)
       (zip [0 ..< length headers] headers) empty_object"

definition convertChunk :: "EttvApi \<Rightarrow> jsstring \<Rightarrow> error + torrent" where
  "convertChunk this chunk =
     (let line = js_split bar chunk;
          torrent = reduce_headers line
      in case stringify
                [(str ''xt'', Primitive (Some (str ''urn:btih:'' @ template_value (hash torrent)))),
                 (str ''dn'', Primitive (title torrent)),
                 (str ''tr'', Array (trackers this))] of
           Inl e \<Rightarrow> Inl e
         | Inr qs \<Rightarrow> Inr (torrent\<lparr>magnet := Some (str ''$magnet:?'' @ qs)\<rparr>))"

text \<open>\<open>Array.prototype.map\<close> with a callback that may throw: the first throw ends the call.\<close>

fun map_throwing :: "('a \<Rightarrow> error + 'b) \<Rightarrow> 'a list \<Rightarrow> error + 'b list" where
  "map_throwing f [] = Inr []"
| "map_throwing f (x # xs) =
     (case f x of
        Inl e \<Rightarrow> Inl e
      | Inr y \<Rightarrow> (case map_throwing f xs of Inl e \<Rightarrow> Inl e | Inr ys \<Rightarrow> Inr (y # ys)))"

definition convertToTorrents :: "EttvApi \<Rightarrow> jsstring \<Rightarrow> error + torrent list" where
  "convertToTorrents this res =
     (let lines = filter (\<lambda>line. line \<noteq> []) (js_split newline res)
      in map_throwing (convertChunk this) lines)"

section \<open>The fetcher\<close>

text \<open>
  \<open>_get\<close> hands \<open>https.get\<close> one listener, the response callback, and inside it
  registers three on the gunzip stream: \<open>error\<close>, \<open>data\<close> and \<open>end\<close>. The network
  and the decompressor are the environment; a run of \<open>_get\<close> is the list of events they
  emit. The request has no \<open>error\<close> listener, and an \<open>error\<close> event on an emitter
  without one is thrown by the emitter: it reaches neither \<open>resolve\<close> nor \<open>reject\<close>.
  A promise settles once; later calls of \<open>resolve\<close> and \<open>reject\<close> change nothing.
\<close>

datatype failure = Error jsstring | Thrown error

datatype 'a promise = Pending | Resolved 'a | Rejected failure

datatype event =
    RequestError jsstring
  | Response
  | GunzipData jsstring
  | GunzipError jsstring
  | GunzipEnd

record fetch =
  promise :: "jsstring promise"
  data :: jsstring
  listening :: bool
  uncaught :: "jsstring list"

definition resolve :: "jsstring \<Rightarrow> fetch \<Rightarrow> fetch" where
  "resolve v s = (if promise s = Pending then s\<lparr>promise := Resolved v\<rparr> else s)"

definition reject :: "failure \<Rightarrow> fetch \<Rightarrow> fetch" where
  "reject r s = (if promise s = Pending then s\<lparr>promise := Rejected r\<rparr> else s)"

fun on_event :: "event \<Rightarrow> fetch \<Rightarrow> fetch" where
  "on_event (RequestError err) s = s\<lparr>uncaught := uncaught s @ [err]\<rparr>"
| "on_event Response s = s\<lparr>listening := True, data := []\<rparr>"
| "on_event (GunzipData chunk) s = (if listening s then s\<lparr>data := data s @ chunk\<rparr> else s)"
| "on_event (GunzipError err) s = (if listening s then reject (Error err) s else s)"
| "on_event GunzipEnd s = (if listening s then resolve (data s) s else s)"

definition get :: "event list \<Rightarrow> fetch" where
  "get events =
     fold on_event events \<lparr> promise = Pending, data = [], listening = False, uncaught = [] \<rparr>"

text \<open>\<open>p.then(f)\<close>: \<open>f\<close> runs on the value of a resolved \<open>p\<close>, and what it throws rejects.\<close>

definition then_promise :: "'a promise \<Rightarrow> ('a \<Rightarrow> error + 'b) \<Rightarrow> 'b promise" where
  "then_promise p f =
     (case p of
        Pending \<Rightarrow> Pending
      | Rejected r \<Rightarrow> Rejected r
      | Resolved v \<Rightarrow> (case f v of Inl e \<Rightarrow> Rejected (Thrown e) | Inr y \<Rightarrow> Resolved y))"

text \<open>
  The file name only selects the URL, that is, which events the network emits; they are
  the last argument.
\<close>

definition getFile :: "EttvApi \<Rightarrow> jsstring \<Rightarrow> event list \<Rightarrow> torrent list promise" where
  "getFile this file events = then_promise (promise (get events)) (convertToTorrents this)"

definition getDaily :: "EttvApi \<Rightarrow> event list \<Rightarrow> torrent list promise" where
  "getDaily this events = getFile this (str ''daily'') events"

definition getFull :: "EttvApi \<Rightarrow> event list \<Rightarrow> torrent list promise" where
  "getFull this events = getFile this (str ''full'') events"

section \<open>Vocabulary of the properties\<close>

text \<open>\<open>Array.prototype.join\<close> with a one-unit separator, the inverse of \<open>js_split\<close>.\<close>

fun join :: "code_unit \<Rightarrow> jsstring list \<Rightarrow> jsstring" where
  "join sep [] = []"
| "join sep [x] = x"
| "join sep (x # y # ys) = x @ sep # join sep (y # ys)"

text \<open>The units an escaped string is made of: the ones left alone, and the percent sign.\<close>

definition plain :: "code_unit \<Rightarrow> bool" where
  "plain u \<longleftrightarrow> noEscape (unat u) \<or> u = 0x25"

definition surrogate :: "code_unit \<Rightarrow> bool" where
  "surrogate u \<longleftrightarrow> 0xD800 \<le> unat u \<and> unat u < 0xE000"

definition lead :: "code_unit \<Rightarrow> bool" where
  "lead u \<longleftrightarrow> 0xD800 \<le> unat u \<and> unat u < 0xDC00"

definition trail :: "code_unit \<Rightarrow> bool" where
  "trail u \<longleftrightarrow> 0xDC00 \<le> unat u \<and> unat u < 0xE000"

text \<open>
  Well-formed UTF-16: every lead surrogate is followed by a trail surrogate and every
  trail surrogate follows a lead one. Text decoded from UTF-8, which is what \<open>_get\<close>
  accumulates, is well-formed. The flag says whether a lead surrogate is open.
\<close>

fun paired :: "bool \<Rightarrow> jsstring \<Rightarrow> bool" where
  "paired open [] = (\<not> open)"
| "paired open (u # us) =
     (if open then trail u \<and> paired False us
      else if lead u then paired True us
      else \<not> trail u \<and> paired False us)"

definition wellformed :: "jsstring \<Rightarrow> bool" where
  "wellformed s = paired False s"

text \<open>The white space and line terminators of ECMAScript, the class \<open>\s\<close>.\<close>

definition whitespace :: "code_unit \<Rightarrow> bool" where
  "whitespace u \<longleftrightarrow>
     (0x09 \<le> unat u \<and> unat u \<le> 0x0D) \<or> u = 0x20 \<or> u = 0xA0 \<or> u = 0x1680 \<or>
     (0x2000 \<le> unat u \<and> unat u \<le> 0x200A) \<or> u = 0x2028 \<or> u = 0x2029 \<or>
     u = 0x202F \<or> u = 0x205F \<or> u = 0x3000 \<or> u = 0xFEFF"

section \<open>Splitting and joining\<close>

lemma js_split_nonempty: "js_split sep s \<noteq> []"
  by (induction s) (auto split: list.splits)

lemma js_split_no_sep: "sep \<notin> set s \<Longrightarrow> js_split sep s = [s]"
  by (induction s) auto

lemma js_split_append:
  "sep \<notin> set a \<Longrightarrow> js_split sep (a @ sep # b) = a # js_split sep b"
  by (induction a) auto

lemma js_split_join:
  "fs \<noteq> [] \<Longrightarrow> \<forall>f \<in> set fs. sep \<notin> set f \<Longrightarrow> js_split sep (join sep fs) = fs"
  by (induction sep fs rule: join.induct) (auto simp: js_split_no_sep js_split_append)

lemma js_split_concat:
  "js_split sep (a @ sep # b) = js_split sep a @ js_split sep b"
proof (induction a)
  case Nil
  then show ?case by simp
next
  case (Cons u a)
  then show ?case
    by (cases "js_split sep a") (auto simp: js_split_nonempty)
qed

lemma join_Cons: "join sep (f # fs) = f @ concat (map (\<lambda>g. sep # g) fs)"
  by (induction fs arbitrary: f) auto

lemma join_Cons_if: "join sep (f # fs) = (if fs = [] then f else f @ sep # join sep fs)"
  by (cases fs) auto

section \<open>The escaping loop\<close>

lemma or_nat_bound: "(a::nat) < 2 ^ n \<Longrightarrow> b < 2 ^ n \<Longrightarrow> a OR b < 2 ^ n"
  by (simp flip: take_bit_nat_eq_self_iff)

lemma and_nat_bound: "(b::nat) < 2 ^ n \<Longrightarrow> a AND b < 2 ^ n"
proof -
  assume "b < 2 ^ n"
  then have "take_bit n b = b" by (simp only: take_bit_nat_eq_self_iff)
  then have "b AND mask n = b" by (simp only: take_bit_eq_mask)
  then have "take_bit n (a AND b) = a AND b" by (simp add: take_bit_eq_mask and.assoc)
  then show ?thesis by (simp only: take_bit_nat_eq_self_iff)
qed

lemma drop_bit_nat_bound: "(a::nat) < 2 ^ (n + k) \<Longrightarrow> drop_bit k a < 2 ^ n"
  by (simp add: drop_bit_eq_div less_mult_imp_div_less power_add)

lemma push_bit_nat_bound: "(a::nat) < 2 ^ n \<Longrightarrow> push_bit k a < 2 ^ (n + k)"
  by (simp add: push_bit_eq_mult power_add)

text \<open>Every index at which the loop reads \<open>hexTable\<close> is below 256.\<close>

lemma index_lead2: "c < 0x800 \<Longrightarrow> 0xC0 OR drop_bit 6 (c::nat) < 256"
  using or_nat_bound [of "0xC0" 8 "drop_bit 6 c"] drop_bit_nat_bound [of c 8 6] by simp

lemma index_continuation: "0x80 OR ((x::nat) AND 0x3F) < 256"
  using or_nat_bound [of "0x80" 8 "x AND 0x3F"] and_nat_bound [of "0x3F" 8 x] by simp

lemma index_lead3: "c < 0x10000 \<Longrightarrow> 0xE0 OR drop_bit 12 (c::nat) < 256"
  using or_nat_bound [of "0xE0" 8 "drop_bit 12 c"] drop_bit_nat_bound [of c 8 12] by simp

lemma index_lead4:
  "0xF0 OR drop_bit 18 (0x10000 + (push_bit 10 ((c::nat) AND 0x3FF) OR (d AND 0x3FF))) < 256"
proof -
  have "push_bit 10 (c AND 0x3FF) < 2 ^ 20"
    using push_bit_nat_bound [of "c AND 0x3FF" 10 10] and_nat_bound [of "0x3FF" 10 c] by simp
  moreover have "d AND 0x3FF < 2 ^ 20"
    using and_nat_bound [of "0x3FF" 20 d] by simp
  ultimately have "push_bit 10 (c AND 0x3FF) OR (d AND 0x3FF) < 2 ^ 20"
    by (rule or_nat_bound)
  then have "0x10000 + (push_bit 10 (c AND 0x3FF) OR (d AND 0x3FF)) < 2 ^ 21"
    by simp
  then have "drop_bit 18 (0x10000 + (push_bit 10 (c AND 0x3FF) OR (d AND 0x3FF))) < 2 ^ 3"
    using drop_bit_nat_bound [of _ 3 18] by simp
  then show ?thesis
    using or_nat_bound [of "0xF0" 8] by simp
qed

lemma hexDigit_plain: "d < 16 \<Longrightarrow> noEscape (unat (hexDigit d))"
proof -
  assume d: "d < 16"
  then have "unat (hexDigit d) = (if d < 10 then 0x30 + d else 0x37 + d)"
    by (simp add: hexDigit_def unat_word_ariths unat_of_nat)
  then show ?thesis using d by (simp add: noEscape_def)
qed

lemma plainI: "noEscape (unat u) \<Longrightarrow> plain u"
  by (simp add: plain_def)

lemma hexTable_plain: "i < 256 \<Longrightarrow> list_all plain (hexTable i)"
  by (simp add: hexTable_def plain_def hexDigit_plain)

lemma encodeStr_plain: "encodeStr s = Inr e \<Longrightarrow> list_all plain e"
proof (induction s arbitrary: e rule: encodeStr.induct)
  case 1
  then show ?case by simp
next
  case (2 u us)
  have u: "unat u < 0x10000" using unsigned_less [of u, where ?'a = nat] by simp
  show ?case
    using "2.prems" "2.IH" u
    by (auto simp: Let_def emit_def hexTable_plain index_lead2 index_lead3 index_lead4
          index_continuation
          simp del: push_bit_and intro: plainI split: if_splits sum.splits list.splits)
qed

lemma plain_not_amp: "list_all plain e \<Longrightarrow> amp \<notin> set e"
  by (auto simp: list_all_iff plain_def amp_def noEscape_def)

lemma qsEscape_no_amp: "qsEscape s = Inr e \<Longrightarrow> amp \<notin> set e"
  using encodeStr_plain plain_not_amp by (auto simp: qsEscape_def)

lemma emit_Inr: "emit out (Inr e) = Inr (out @ e)"
  by (simp add: emit_def)

lemma encodeStr_step:
  "\<not> surrogate u \<Longrightarrow> \<exists>out. encodeStr (u # us) = emit out (encodeStr us)"
  unfolding surrogate_def
  by (cases "unat u < 0x80"; cases "unat u < 0x800"; cases "unat u < 0xD800")
     (simp_all add: Let_def, blast+)

lemma encodeStr_pair:
  "surrogate u \<Longrightarrow> \<exists>out. encodeStr (u # u2 # rest) = emit out (encodeStr rest)"
  unfolding surrogate_def
  by (simp add: Let_def) blast

text \<open>The loop throws on no well-formed string.\<close>

lemma encodeStr_paired: "paired False s \<Longrightarrow> \<exists>e. encodeStr s = Inr e"
proof (induction "length s" arbitrary: s rule: less_induct)
  case less
  show ?case
  proof (cases s)
    case Nil
    then show ?thesis by simp
  next
    case (Cons u us)
    show ?thesis
    proof (cases "surrogate u")
      case False
      then have "paired False us"
        using less.prems Cons by (simp add: surrogate_def lead_def trail_def split: if_splits)
      then obtain e where "encodeStr us = Inr e"
        using less.hyps [of us] Cons by auto
      then show ?thesis
        using encodeStr_step [OF False, of us] Cons by (auto simp: emit_Inr)
    next
      case True
      then have "lead u \<or> trail u"
        by (auto simp: surrogate_def lead_def trail_def)
      then have "paired True us"
        using less.prems Cons by (simp split: if_splits)
      then obtain u2 rest where us: "us = u2 # rest" and rest: "paired False rest"
        by (cases us) auto
      obtain e where "encodeStr rest = Inr e"
        using less.hyps [of rest] rest us Cons by auto
      then show ?thesis
        using encodeStr_pair [OF True, of u2 rest] us Cons by (auto simp: emit_Inr)
    qed
  qed
qed

lemma qsEscape_wellformed: "wellformed s \<Longrightarrow> \<exists>e. qsEscape s = Inr e"
  by (simp add: wellformed_def qsEscape_def encodeStr_paired)

lemma paired_js_split:
  "\<not> surrogate sep \<Longrightarrow> paired b s \<Longrightarrow>
     paired b (hd (js_split sep s)) \<and> list_all (paired False) (tl (js_split sep s))"
proof (induction s arbitrary: b)
  case Nil
  then show ?case by simp
next
  case (Cons u us)
  then show ?case
    by (cases "js_split sep us")
       (auto simp: surrogate_def lead_def trail_def js_split_nonempty split: if_splits)
qed

lemma encodeStr_unreserved:
  "list_all (\<lambda>u. noEscape (unat u)) s \<Longrightarrow> encodeStr s = Inr s"
  by (induction s) (auto simp: Let_def emit_def noEscape_def)

lemma encodeStr_urn:
  "encodeStr (str ''urn:btih:'' @ h) = emit (str ''urn%3Abtih%3A'') (encodeStr h)"
  by (simp add: str_def Let_def emit_def noEscape_def hexTable_def hexDigit_def split: sum.splits)

section \<open>The query string of a magnet\<close>

lemma map_throwing_Inr: "map_throwing f xs = Inr ys \<Longrightarrow> map f xs = map Inr ys"
  by (induction xs arbitrary: ys) (auto split: sum.splits)

lemma map_throwing_total:
  "list_all (\<lambda>x. \<exists>y. f x = Inr y) xs \<Longrightarrow> \<exists>ys. map_throwing f xs = Inr ys"
  by (induction xs) auto

lemma map_throwing_append:
  "map_throwing f (xs @ ys) =
     (case map_throwing f xs of
        Inl e \<Rightarrow> Inl e
      | Inr as \<Rightarrow> (case map_throwing f ys of Inl e \<Rightarrow> Inl e | Inr bs \<Rightarrow> Inr (as @ bs)))"
  by (induction xs) (auto split: sum.splits)

lemma stringify_array_Suc:
  "stringify_array ks vs (Suc j) out =
     (case map_throwing qsEscape vs of
        Inl e \<Rightarrow> Inl e
      | Inr es \<Rightarrow> Inr (out @ concat (map (\<lambda>e. amp # ks @ e) es)))"
  by (induction vs arbitrary: j out) (auto simp: stringifyPrimitive_def split: sum.splits)

lemma stringify_array_0:
  "stringify_array ks (v # vs) 0 out =
     (case map_throwing qsEscape (v # vs) of
        Inl e \<Rightarrow> Inl e
      | Inr es \<Rightarrow> Inr (out @ join amp (map (\<lambda>e. ks @ e) es)))"
  by (auto simp: stringifyPrimitive_def stringify_array_Suc join_Cons comp_def split: sum.splits)

lemma qsEscape_keys:
  "qsEscape (str ''xt'') = Inr (str ''xt'')"
  "qsEscape (str ''dn'') = Inr (str ''dn'')"
  "qsEscape (str ''tr'') = Inr (str ''tr'')"
  by (simp_all add: qsEscape_def str_def emit_def noEscape_def)

lemma stringify_keys_Primitive:
  "qsEscape k = Inr ek \<Longrightarrow>
   stringify_keys ((k, Primitive p) # rest) out =
     (case qsEscape (stringifyPrimitive p) of
        Inl e \<Rightarrow> Inl e
      | Inr ev \<Rightarrow> stringify_keys rest (separate out @ ek @ str ''='' @ ev))"
  by (simp split: sum.splits)

lemma stringify_keys_Array:
  assumes k: "qsEscape k = Inr ek"
  shows "stringify_keys [(k, Array vs)] out =
     (case map_throwing qsEscape vs of
        Inl e \<Rightarrow> Inl e
      | Inr es \<Rightarrow>
          Inr (if es = [] then out
               else separate out @ join amp (map ((@) (ek @ str ''='')) es)))"
proof (cases vs)
  case Nil
  then show ?thesis using k by simp
next
  case (Cons v vs')
  have "stringify_keys [(k, Array vs)] out =
          (case stringify_array (ek @ str ''='') (v # vs') 0 (separate out) of
             Inl e \<Rightarrow> Inl e | Inr r \<Rightarrow> Inr r)"
    using k Cons by (simp split: sum.splits)
  also have "\<dots> = (case map_throwing qsEscape (v # vs') of
        Inl e \<Rightarrow> Inl e
      | Inr es \<Rightarrow>
          Inr (if es = [] then out
               else separate out @ join amp (map ((@) (ek @ str ''='')) es)))"
    unfolding stringify_array_0 by (auto split: sum.splits)
  finally show ?thesis using Cons by simp
qed

text \<open>What \<open>stringify\<close> returns on the object that \<open>_convertChunk\<close> builds.\<close>

lemma stringify_magnet:
  "stringify [(str ''xt'', Primitive (Some x)), (str ''dn'', Primitive d), (str ''tr'', Array ts)] =
     (case qsEscape x of
        Inl e \<Rightarrow> Inl e
      | Inr ex \<Rightarrow>
          (case qsEscape (stringifyPrimitive d) of
             Inl e \<Rightarrow> Inl e
           | Inr ed \<Rightarrow>
               (case map_throwing qsEscape ts of
                  Inl e \<Rightarrow> Inl e
                | Inr ets \<Rightarrow>
                    Inr (join amp ((str ''xt='' @ ex) # (str ''dn='' @ ed) #
                           map ((@) (str ''tr='')) ets)))))"
  unfolding stringify_def
  by (simp only: stringify_keys_Primitive [OF qsEscape_keys(1)]
        stringify_keys_Primitive [OF qsEscape_keys(2)]
        stringify_keys_Array [OF qsEscape_keys(3)])
     (auto simp: separate_def join_Cons_if str_def stringifyPrimitive_def split: sum.splits)

lemma reduce_headers_eq:
  "reduce_headers line =
     \<lparr> hash = at_index line 0, title = at_index line 1, category = at_index line 2,
       link = at_index line 3, magnet = None \<rparr>"
  by (simp add: reduce_headers_def headers_def empty_object_def upt_rec
        numeral_2_eq_2 numeral_3_eq_3)

section \<open>What converting a line returns\<close>

lemma hd_at_index: "at_index (js_split sep s) 0 = Some (hd (js_split sep s))"
  by (cases "js_split sep s") (auto simp: at_index_def js_split_nonempty)

lemma convertChunk_eq:
  "convertChunk this chunk =
     (let line = js_split bar chunk in
      case qsEscape (str ''urn:btih:'' @ hd line) of
        Inl e \<Rightarrow> Inl e
      | Inr ex \<Rightarrow>
          (case qsEscape (stringifyPrimitive (at_index line 1)) of
             Inl e \<Rightarrow> Inl e
           | Inr ed \<Rightarrow>
               (case map_throwing qsEscape (trackers this) of
                  Inl e \<Rightarrow> Inl e
                | Inr ets \<Rightarrow>
                    Inr \<lparr> hash = Some (hd line), title = at_index line 1,
                          category = at_index line 2, link = at_index line 3,
                          magnet = Some (str ''$magnet:?'' @
                            join amp ((str ''xt='' @ ex) # (str ''dn='' @ ed) #
                              map ((@) (str ''tr='')) ets)) \<rparr>)))"
  by (simp add: convertChunk_def Let_def reduce_headers_eq stringify_magnet hd_at_index
        template_value_def split: sum.splits)

lemma query_fields:
  assumes "qsEscape x = Inr ex" "qsEscape d = Inr ed" "map_throwing qsEscape ts = Inr ets"
  shows "js_split amp (join amp ((str ''xt='' @ ex) # (str ''dn='' @ ed) # map ((@) (str ''tr='')) ets))
           = (str ''xt='' @ ex) # (str ''dn='' @ ed) # map ((@) (str ''tr='')) ets"
proof (rule js_split_join)
  have "\<forall>e \<in> set ets. amp \<notin> set e"
  proof
    fix e assume "e \<in> set ets"
    then have "Inr e \<in> set (map qsEscape ts)"
      using map_throwing_Inr [OF assms(3)] by simp
    then obtain t where "qsEscape t = Inr e" by auto
    then show "amp \<notin> set e" by (rule qsEscape_no_amp)
  qed
  then show "\<forall>f \<in> set ((str ''xt='' @ ex) # (str ''dn='' @ ed) # map ((@) (str ''tr='')) ets).
               amp \<notin> set f"
    using qsEscape_no_amp [OF assms(1)] qsEscape_no_amp [OF assms(2)]
    by (auto simp: str_def amp_def)
qed simp

lemma count_tr:
  "length (filter (prefix (str ''tr=''))
     ((str ''xt='' @ ex) # (str ''dn='' @ ed) # map ((@) (str ''tr='')) ets)) = length ets"
  by (simp add: str_def filter_map comp_def)

lemma not_surrogate_bar: "\<not> surrogate bar" "\<not> surrogate newline"
  by (simp_all add: surrogate_def bar_def newline_def)

lemma paired_urn: "paired False (str ''urn:btih:'' @ h) = paired False h"
  by (simp add: str_def lead_def trail_def)

lemma title_wellformed:
  assumes "list_all (paired False) (tl line)"
  shows "paired False (stringifyPrimitive (at_index line 1))"
proof (cases "1 < length line")
  case True
  then have "line ! 1 \<in> set (tl line)"
    by (cases line) (auto simp: nth_Cons')
  then show ?thesis using assms True by (simp add: at_index_def stringifyPrimitive_def list_all_iff)
next
  case False
  then show ?thesis by (simp add: at_index_def stringifyPrimitive_def)
qed

lemma trackers_escape:
  "list_all wellformed ts \<Longrightarrow> \<exists>ets. map_throwing qsEscape ts = Inr ets"
  by (rule map_throwing_total) (simp add: list_all_iff qsEscape_wellformed)

lemma convertChunk_total:
  assumes "wellformed chunk" "list_all wellformed (trackers this)"
  shows "\<exists>ex ed ets.
     qsEscape (str ''urn:btih:'' @ hd (js_split bar chunk)) = Inr ex \<and>
     qsEscape (stringifyPrimitive (at_index (js_split bar chunk) 1)) = Inr ed \<and>
     map_throwing qsEscape (trackers this) = Inr ets"
proof -
  have p: "paired False (hd (js_split bar chunk)) \<and> list_all (paired False) (tl (js_split bar chunk))"
    using assms(1) paired_js_split [OF not_surrogate_bar(1)] by (simp add: wellformed_def)
  then have "wellformed (str ''urn:btih:'' @ hd (js_split bar chunk))"
    by (simp add: wellformed_def paired_urn)
  moreover have "wellformed (stringifyPrimitive (at_index (js_split bar chunk) 1))"
    using p title_wellformed by (simp add: wellformed_def)
  ultimately show ?thesis
    using qsEscape_wellformed trackers_escape [OF assms(2)] by blast
qed

lemma convertChunk_returns:
  assumes "wellformed chunk" "list_all wellformed (trackers this)"
  shows "\<exists>ex ed ets.
     qsEscape (str ''urn:btih:'' @ hd (js_split bar chunk)) = Inr ex \<and>
     qsEscape (stringifyPrimitive (at_index (js_split bar chunk) 1)) = Inr ed \<and>
     map qsEscape (trackers this) = map Inr ets \<and>
     convertChunk this chunk =
       Inr \<lparr> hash = Some (hd (js_split bar chunk)), title = at_index (js_split bar chunk) 1,
             category = at_index (js_split bar chunk) 2, link = at_index (js_split bar chunk) 3,
             magnet = Some (str ''$magnet:?'' @
               join amp ((str ''xt='' @ ex) # (str ''dn='' @ ed) #
                 map ((@) (str ''tr='')) ets)) \<rparr> \<and>
     js_split amp (join amp ((str ''xt='' @ ex) # (str ''dn='' @ ed) # map ((@) (str ''tr='')) ets))
       = (str ''xt='' @ ex) # (str ''dn='' @ ed) # map ((@) (str ''tr='')) ets"
proof -
  obtain ex ed ets where
    ex: "qsEscape (str ''urn:btih:'' @ hd (js_split bar chunk)) = Inr ex" and
    ed: "qsEscape (stringifyPrimitive (at_index (js_split bar chunk) 1)) = Inr ed" and
    ets: "map_throwing qsEscape (trackers this) = Inr ets"
    using convertChunk_total [OF assms] by blast
  show ?thesis
    using ex ed ets map_throwing_Inr [OF ets] query_fields [OF ex ed ets]
    by (simp add: convertChunk_eq Let_def)
qed

lemma js_split_blank: "set res \<subseteq> {sep} \<Longrightarrow> set (js_split sep res) \<subseteq> {[]}"
  by (induction res) auto

lemma whitespace_facts: "whitespace u \<Longrightarrow> u \<noteq> bar \<and> \<not> lead u \<and> \<not> trail u"
  by (auto simp: whitespace_def bar_def lead_def trail_def)

lemma whitespace_paired: "list_all whitespace w \<Longrightarrow> paired False w"
  by (induction w) (auto simp: whitespace_facts)

lemma four_fields:
  assumes "bar \<notin> set H" "bar \<notin> set T" "bar \<notin> set C" "bar \<notin> set L"
  shows "js_split bar (H @ bar # T @ bar # C @ bar # L) = [H, T, C, L]"
  using assms by (simp add: js_split_append js_split_no_sep)

lemma qsEscape_urn:
  "qsEscape h = Inr eh \<Longrightarrow> qsEscape (str ''urn:btih:'' @ h) = Inr (str ''urn%3Abtih%3A'' @ eh)"
  by (simp add: qsEscape_def encodeStr_urn emit_Inr)

section \<open>Literals\<close>

lemma unat_of_char: "unat (of_char c :: code_unit) = of_char c"
proof -
  have "(of_char c :: nat) < 65536"
    by (rule order_less_trans [OF nat_of_char_less_256]) simp
  then have "unat (of_nat (of_char c) :: code_unit) = of_char c"
    by (simp add: unat_of_nat)
  then show ?thesis by (simp only: of_nat_of_char)
qed

lemma paired_str: "paired False (str s)"
proof (induction s)
  case Nil
  then show ?case by (simp add: str_def)
next
  case (Cons c s)
  have "unat (of_char c :: code_unit) < 256"
    using nat_of_char_less_256 [of c] by (simp only: unat_of_char)
  then show ?case using Cons by (simp add: str_def lead_def trail_def)
qed

lemma wellformed_str: "wellformed (str s)"
  by (simp add: wellformed_def paired_str)

lemma wellformed_defaultTrackers: "list_all wellformed defaultTrackers"
  by (simp add: defaultTrackers_def wellformed_str)

lemma trackers_constructor:
  "trackers (constructor b None) = defaultTrackers"
  "trackers (constructor b (Some l)) = l"
  by (simp_all add: constructor_def)

lemma only_error: "(e :: error) = URIError"
  by (cases e) simp

text \<open>A lead surrogate with nothing after it: the escaping loop throws.\<close>

lemma qsEscape_lone: "qsEscape [0xD83D] = Inl URIError"
  by (simp add: qsEscape_def Let_def)

lemma qsEscape_urn_lone: "qsEscape (str ''urn:btih:'' @ [0xD83D]) = Inl URIError"
  by (simp add: qsEscape_def encodeStr_urn emit_def Let_def)

text \<open>Only the first four fields of a chunk reach the record.\<close>

lemma js_split_pieces: "f \<in> set (js_split sep s) \<Longrightarrow> sep \<notin> set f"
proof (induction s arbitrary: f)
  case Nil
  then show ?case by simp
next
  case (Cons u us)
  then show ?case
    by (cases "js_split sep us") (auto simp: js_split_nonempty split: if_splits)
qed

lemma at_index_take: "i < n \<Longrightarrow> at_index (take n xs) i = at_index xs i"
  by (simp add: at_index_def)

lemma js_split_first_four:
  "js_split bar (join bar (take 4 (js_split bar chunk))) = take 4 (js_split bar chunk)"
proof (rule js_split_join)
  show "take 4 (js_split bar chunk) \<noteq> []"
    by (simp add: js_split_nonempty)
  show "\<forall>f \<in> set (take 4 (js_split bar chunk)). bar \<notin> set f"
    using js_split_pieces [of _ bar chunk] by (auto dest: in_set_takeD)
qed

lemma convertChunk_first_four:
  "convertChunk this (join bar (take 4 (js_split bar chunk))) = convertChunk this chunk"
proof -
  have eqs: "at_index (take 4 (js_split bar chunk)) 1 = at_index (js_split bar chunk) 1"
    "at_index (take 4 (js_split bar chunk)) 2 = at_index (js_split bar chunk) 2"
    "at_index (take 4 (js_split bar chunk)) 3 = at_index (js_split bar chunk) 3"
    "hd (take 4 (js_split bar chunk)) = hd (js_split bar chunk)"
    by (simp_all add: at_index_take)
  show ?thesis
    unfolding convertChunk_eq js_split_first_four Let_def eqs by (rule refl)
qed

section \<open>Runs of the fetcher\<close>

text \<open>
  A response whose body decompresses resolves with the whole text; an error of the
  decompressor rejects, and what was accumulated before it is dropped.
\<close>

lemma get_whole_body:
  "promise (get [Response, GunzipData a, GunzipData b, GunzipEnd]) = Resolved (a @ b)"
  by (simp add: get_def resolve_def)

lemma get_gunzip_error:
  "promise (get [Response, GunzipData a, GunzipError err, GunzipEnd]) = Rejected (Error err)"
  by (simp add: get_def resolve_def reject_def)

section \<open>The claims\<close>

text \<open>
  Claim C1. Whenever \<open>_convertChunk\<close> produces a torrent, for any chunk and any tracker
  list, its magnet is the scheme token followed by a query string whose parameters, read
  off by splitting at the ampersand, are: one \<open>xt\<close> whose value is the escaped
  \<open>urn:btih:\<close> followed by the hash, then one \<open>dn\<close> whose value is the escaped title,
  then one \<open>tr\<close> for each configured tracker, in the order of the list, each with the
  escaped tracker as its value. So the key \<open>tr=\<close> occurs as many times as there are
  trackers.
\<close>

theorem magnet_parameters:
  assumes "convertChunk this chunk = Inr t"
  shows "\<exists>qs ex ed ets.
     magnet t = Some (str ''$magnet:?'' @ qs) \<and>
     js_split amp qs = (str ''xt='' @ ex) # (str ''dn='' @ ed) # map ((@) (str ''tr='')) ets \<and>
     qsEscape (str ''urn:btih:'' @ template_value (hash t)) = Inr ex \<and>
     qsEscape (stringifyPrimitive (title t)) = Inr ed \<and>
     map qsEscape (trackers this) = map Inr ets \<and>
     length (filter (prefix (str ''tr='')) (js_split amp qs)) = length (trackers this)"
proof -
  let ?line = "js_split bar chunk"
  obtain ex ed ets where
    ex: "qsEscape (str ''urn:btih:'' @ hd ?line) = Inr ex" and
    ed: "qsEscape (stringifyPrimitive (at_index ?line 1)) = Inr ed" and
    ets: "map_throwing qsEscape (trackers this) = Inr ets" and
    t: "t = \<lparr> hash = Some (hd ?line), title = at_index ?line 1,
              category = at_index ?line 2, link = at_index ?line 3,
              magnet = Some (str ''$magnet:?'' @
                join amp ((str ''xt='' @ ex) # (str ''dn='' @ ed) #
                  map ((@) (str ''tr='')) ets)) \<rparr>"
    using assms unfolding convertChunk_eq Let_def by (auto split: sum.splits)
  let ?qs = "join amp ((str ''xt='' @ ex) # (str ''dn='' @ ed) # map ((@) (str ''tr='')) ets)"
  have split: "js_split amp ?qs = (str ''xt='' @ ex) # (str ''dn='' @ ed) # map ((@) (str ''tr='')) ets"
    by (rule query_fields [OF ex ed ets])
  have len: "length ets = length (trackers this)"
    using map_throwing_Inr [OF ets] by (metis length_map)
  have "magnet t = Some (str ''$magnet:?'' @ ?qs)" using t by simp
  moreover have "qsEscape (str ''urn:btih:'' @ template_value (hash t)) = Inr ex"
    using t ex by (simp add: template_value_def)
  moreover have "qsEscape (stringifyPrimitive (title t)) = Inr ed"
    using t ed by simp
  moreover have "map qsEscape (trackers this) = map Inr ets"
    by (rule map_throwing_Inr [OF ets])
  moreover have "length (filter (prefix (str ''tr='')) (js_split amp ?qs)) = length (trackers this)"
    unfolding split count_tr by (rule len)
  ultimately show ?thesis using split by blast
qed

theorem magnet_parameters_witness:
  "convertChunk (constructor None (Some [str ''udp://a.b:80/announce'', str ''x&y'']))
     (str ''abc|Some Title'') =
     Inr \<lparr> hash = Some (str ''abc''), title = Some (str ''Some Title''), category = None,
           link = None,
           magnet = Some (str (''$magnet:?xt=urn%3Abtih%3Aabc&dn=Some%20Title'' @
                               ''&tr=udp%3A%2F%2Fa.b%3A80%2Fannounce&tr=x%26y'')) \<rparr> \<and>
   (\<exists>qs ex ed ets.
     magnet \<lparr> hash = Some (str ''abc''), title = Some (str ''Some Title''), category = None,
              link = None,
              magnet = Some (str (''$magnet:?xt=urn%3Abtih%3Aabc&dn=Some%20Title'' @
                                  ''&tr=udp%3A%2F%2Fa.b%3A80%2Fannounce&tr=x%26y'')) \<rparr>
       = Some (str ''$magnet:?'' @ qs) \<and>
     js_split amp qs = (str ''xt='' @ ex) # (str ''dn='' @ ed) # map ((@) (str ''tr='')) ets \<and>
     qsEscape (str ''urn:btih:'' @ template_value (hash
       \<lparr> hash = Some (str ''abc''), title = Some (str ''Some Title''), category = None,
         link = None,
         magnet = Some (str (''$magnet:?xt=urn%3Abtih%3Aabc&dn=Some%20Title'' @
                             ''&tr=udp%3A%2F%2Fa.b%3A80%2Fannounce&tr=x%26y'')) \<rparr>)) = Inr ex \<and>
     qsEscape (stringifyPrimitive (title
       \<lparr> hash = Some (str ''abc''), title = Some (str ''Some Title''), category = None,
         link = None,
         magnet = Some (str (''$magnet:?xt=urn%3Abtih%3Aabc&dn=Some%20Title'' @
                             ''&tr=udp%3A%2F%2Fa.b%3A80%2Fannounce&tr=x%26y'')) \<rparr>)) = Inr ed \<and>
     map qsEscape (trackers (constructor None (Some [str ''udp://a.b:80/announce'', str ''x&y'']))) =
       map Inr ets \<and>
     length (filter (prefix (str ''tr='')) (js_split amp qs)) =
       length (trackers (constructor None (Some [str ''udp://a.b:80/announce'', str ''x&y'']))))"
proof -
  have h: "convertChunk (constructor None (Some [str ''udp://a.b:80/announce'', str ''x&y'']))
     (str ''abc|Some Title'') =
     Inr \<lparr> hash = Some (str ''abc''), title = Some (str ''Some Title''), category = None,
           link = None,
           magnet = Some (str (''$magnet:?xt=urn%3Abtih%3Aabc&dn=Some%20Title'' @
                               ''&tr=udp%3A%2F%2Fa.b%3A80%2Fannounce&tr=x%26y'')) \<rparr>"
    by code_simp
  show ?thesis
    by (rule conjI [OF h magnet_parameters [OF h] ])
qed

text \<open>
  Claim C2. The magnet is to begin with the token \<open>magnet:?\<close>. The template literal of
  line 124 puts a dollar sign before it: on the line below, with one tracker, the magnet
  is \<open>$magnet:?xt=urn%3Abtih%3Aabc&dn=Some%20Title&tr=udp%3A%2F%2Fa.b%3A80\<close>, of
  which \<open>magnet:?\<close> is no prefix.
\<close>

theorem magnet_starts_with_dollar:
  "convertChunk (constructor None (Some [str ''udp://a.b:80'']))
     (str ''abc|Some Title|Movies|https://www.ettv.tv/torrent/1'') =
     Inr \<lparr> hash = Some (str ''abc''), title = Some (str ''Some Title''),
           category = Some (str ''Movies''), link = Some (str ''https://www.ettv.tv/torrent/1''),
           magnet =
             Some (str ''$magnet:?xt=urn%3Abtih%3Aabc&dn=Some%20Title&tr=udp%3A%2F%2Fa.b%3A80'') \<rparr> \<and>
   \<not> prefix (str ''magnet:?'')
       (str ''$magnet:?xt=urn%3Abtih%3Aabc&dn=Some%20Title&tr=udp%3A%2F%2Fa.b%3A80'')"
  by code_simp

text \<open>
  Claim C3. The default trackers are written already escaped (\<open>%3A\<close>, \<open>%2F\<close>, a closing
  ampersand) and are to reach the magnet unchanged. \<open>stringify\<close> escapes them once more:
  with the default client, every percent sign of a tracker comes out as \<open>%25\<close>, its colon
  and slashes as \<open>%3A\<close> and \<open>%2F\<close>, its closing ampersand as \<open>%26\<close>, and the prefix
  \<open>udp%3A%2F%2F\<close> that every default tracker begins with follows no \<open>tr=\<close> of the
  magnet.
\<close>

theorem default_trackers_escaped_again:
  "(let m = str (''$magnet:?xt=urn%3Abtih%3Aabc&dn=Title'' @
      ''&tr=udp%253A%252F%252Ftracker.coppersurfer.tk%3A6969%2Fannounce%26'' @
      ''&tr=udp%253A%252F%252F9.rarbg.to%3A2710%2Fannounce%26'' @
      ''&tr=udp%253A%252F%252F9.rarbg.me%3A2710%2Fannounce%26'' @
      ''&tr=udp%253A%252F%252FIPv6.open-internet.nl%3A6969%2Fannounce%26'' @
      ''&tr=udp%253A%252F%252Ftracker.internetwarriors.net%3A1337%2Fannounce%26'' @
      ''&tr=udp%253A%252F%252Ftracker.opentrackr.org%3A1337%2Fannounce%26'' @
      ''&tr=udp%253A%252F%252Fp4p.arenabg.com%3A1337%2Fannounce%26'' @
      ''&tr=udp%253A%252F%252Feddie4.nl%3A6969%2Fannounce%26'' @
      ''&tr=udp%253A%252F%252Fshadowshq.yi.org%3A6969%2Fannounce%26'' @
      ''&tr=udp%253A%252F%252Ftracker.leechers-paradise.org%3A6969%2Fannounce%26'' @
      ''&tr=udp%253A%252F%252Fexplodie.org%3A6969%2Fannounce%26'' @
      ''&tr=udp%253A%252F%252Ftracker.tiny-vps.com%3A6969%2Fannounce%26'' @
      ''&tr=udp%253A%252F%252Finferno.demonoid.pw%3A3391%2Fannounce%26'' @
      ''&tr=udp%253A%252F%252Fipv4.tracker.harry.lu%3A80%2Fannounce%26'' @
      ''&tr=udp%253A%252F%252Fpeerfect.org%3A6969%2Fannounce%26'' @
      ''&tr=udp%253A%252F%252Ftracker.pirateparty.gr%3A6969%2Fannounce%26'' @
      ''&tr=udp%253A%252F%252Ftracker.vanitycore.co%3A6969%2Fannounce%26'' @
      ''&tr=udp%253A%252F%252Fopen.stealth.si%3A80%2Fannounce%26'' @
      ''&tr=udp%253A%252F%252Ftracker.torrent.eu.org%3A451%26'' @
      ''&tr=udp%253A%252F%252Ftracker.zer0day.to%3A1337%2Fannounce%26'' @
      ''&tr=udp%253A%252F%252Ftracker.open-internet.nl%3A6969%2Fannounce'')
    in convertChunk (constructor None None) (str ''abc|Title'') =
         Inr \<lparr> hash = Some (str ''abc''), title = Some (str ''Title''), category = None,
               link = None, magnet = Some m \<rparr> \<and>
       list_all (prefix (str ''udp%3A%2F%2F'')) (trackers (constructor None None)) \<and>
       \<not> sublist (str ''tr=udp%3A%2F%2F'') m)"
  by code_simp

text \<open>
  Claim C4, as amended. Let the text be the one line \<open>H|T|C|L\<close>, the four fields free of
  the bar and of the newline, with \<open>H\<close>, \<open>T\<close> and the trackers well-formed UTF-16.
  Parsing yields exactly one record, with these four fields, and a non-empty magnet that
  contains \<open>urn%3Abtih%3A\<close> followed by the escaped \<open>H\<close>, which is \<open>H\<close> itself when
  \<open>H\<close> holds only units that are never escaped (a hexadecimal hash, say). The colons
  of \<open>urn:btih:\<close> are escaped like any other value: at the line
  \<open>abc|Title|Movies|link\<close> the magnet does not contain \<open>urn:btih:abc\<close>; and a line
  whose hash is an unpaired surrogate yields no record.
\<close>

theorem single_line_record:
  assumes "bar \<notin> set H" "bar \<notin> set T" "bar \<notin> set C" "bar \<notin> set L"
    and "newline \<notin> set H" "newline \<notin> set T" "newline \<notin> set C" "newline \<notin> set L"
    and "wellformed H" "wellformed T" "list_all wellformed (trackers this)"
  shows "\<exists>t m eh.
     convertToTorrents this (H @ bar # T @ bar # C @ bar # L) = Inr [t] \<and>
     hash t = Some H \<and> title t = Some T \<and> category t = Some C \<and> link t = Some L \<and>
     magnet t = Some m \<and> m \<noteq> [] \<and>
     qsEscape H = Inr eh \<and> sublist (str ''urn%3Abtih%3A'' @ eh) m \<and>
     (list_all (\<lambda>u. noEscape (unat u)) H \<longrightarrow> eh = H)"
proof -
  let ?res = "H @ bar # T @ bar # C @ bar # L"
  have lines: "filter (\<lambda>line. line \<noteq> []) (js_split newline ?res) = [?res]"
    using assms(5-8) by (simp add: js_split_no_sep bar_def newline_def)
  have fields: "js_split bar ?res = [H, T, C, L]"
    using assms(1-4) by (rule four_fields)
  obtain eh where eh: "qsEscape H = Inr eh"
    using qsEscape_wellformed [OF assms(9)] by blast
  obtain ed where ed: "qsEscape T = Inr ed"
    using qsEscape_wellformed [OF assms(10)] by blast
  obtain ets where ets: "map_throwing qsEscape (trackers this) = Inr ets"
    using trackers_escape [OF assms(11)] by blast
  let ?m = "str ''$magnet:?'' @ join amp ((str ''xt='' @ str ''urn%3Abtih%3A'' @ eh) #
              (str ''dn='' @ ed) # map ((@) (str ''tr='')) ets)"
  let ?t = "\<lparr> hash = Some H, title = Some T, category = Some C, link = Some L, magnet = Some ?m \<rparr>"
  have chunk: "convertChunk this ?res = Inr ?t"
    unfolding convertChunk_eq fields
    by (simp add: qsEscape_urn [OF eh] ed ets at_index_def stringifyPrimitive_def)
  have "?m = (str ''$magnet:?'' @ str ''xt='') @ (str ''urn%3Abtih%3A'' @ eh) @
               concat (map (\<lambda>g. amp # g) ((str ''dn='' @ ed) # map ((@) (str ''tr='')) ets))"
    by (simp add: join_Cons)
  then have sub: "sublist (str ''urn%3Abtih%3A'' @ eh) ?m"
    unfolding sublist_def by blast
  have ne: "?m \<noteq> []" by (simp add: str_def)
  have id: "list_all (\<lambda>u. noEscape (unat u)) H \<longrightarrow> eh = H"
    using eh encodeStr_unreserved [of H] by (auto simp: qsEscape_def)
  have "convertToTorrents this ?res = Inr [?t]"
    using lines chunk by (simp add: convertToTorrents_def)
  then show ?thesis using sub ne id eh by (intro exI [of _ ?t] exI [of _ ?m] exI [of _ eh]) simp
qed

theorem single_line_record_witness:
  "bar \<notin> set (str ''abc123'') \<and> bar \<notin> set (str ''Some Title'') \<and>
   bar \<notin> set (str ''Movies'') \<and> bar \<notin> set (str ''https://x/1'') \<and>
   newline \<notin> set (str ''abc123'') \<and> newline \<notin> set (str ''Some Title'') \<and>
   newline \<notin> set (str ''Movies'') \<and> newline \<notin> set (str ''https://x/1'') \<and>
   wellformed (str ''abc123'') \<and> wellformed (str ''Some Title'') \<and>
   list_all wellformed (trackers (constructor None None)) \<and>
   (\<exists>t m eh.
     convertToTorrents (constructor None None)
       (str ''abc123'' @ bar # str ''Some Title'' @ bar # str ''Movies'' @ bar # str ''https://x/1'')
       = Inr [t] \<and>
     hash t = Some (str ''abc123'') \<and> title t = Some (str ''Some Title'') \<and>
     category t = Some (str ''Movies'') \<and> link t = Some (str ''https://x/1'') \<and>
     magnet t = Some m \<and> m \<noteq> [] \<and>
     qsEscape (str ''abc123'') = Inr eh \<and> sublist (str ''urn%3Abtih%3A'' @ eh) m \<and>
     (list_all (\<lambda>u. noEscape (unat u)) (str ''abc123'') \<longrightarrow> eh = str ''abc123''))"
proof -
  have b: "bar \<notin> set (str ''abc123'')" "bar \<notin> set (str ''Some Title'')"
    "bar \<notin> set (str ''Movies'')" "bar \<notin> set (str ''https://x/1'')"
    by (simp_all add: str_def bar_def)
  have n: "newline \<notin> set (str ''abc123'')" "newline \<notin> set (str ''Some Title'')"
    "newline \<notin> set (str ''Movies'')" "newline \<notin> set (str ''https://x/1'')"
    by (simp_all add: str_def newline_def)
  have w: "wellformed (str ''abc123'')" "wellformed (str ''Some Title'')"
    by (rule wellformed_str)+
  have t: "list_all wellformed (trackers (constructor None None))"
    by (simp add: trackers_constructor wellformed_defaultTrackers)
  show ?thesis
    using b n w t single_line_record [OF b n w t] by (intro conjI)
qed

theorem single_line_record_counterexample:
  "\<not> (\<exists>t m.
       convertToTorrents (constructor None (Some [str ''udp://a.b:80'']))
         (str ''abc|Title|Movies|link'') = Inr [t] \<and>
       hash t = Some (str ''abc'') \<and> title t = Some (str ''Title'') \<and>
       category t = Some (str ''Movies'') \<and> link t = Some (str ''link'') \<and>
       magnet t = Some m \<and> m \<noteq> [] \<and> sublist (str ''urn:btih:abc'') m) \<and>
   convertToTorrents (constructor None (Some [str ''udp://a.b:80'']))
     (0xD83D # str ''|Title|Movies|link'') = Inl URIError"
proof -
  have r: "convertToTorrents (constructor None (Some [str ''udp://a.b:80'']))
       (str ''abc|Title|Movies|link'') =
     Inr [\<lparr> hash = Some (str ''abc''), title = Some (str ''Title''),
            category = Some (str ''Movies''), link = Some (str ''link''),
            magnet =
              Some (str ''$magnet:?xt=urn%3Abtih%3Aabc&dn=Title&tr=udp%3A%2F%2Fa.b%3A80'') \<rparr>]"
    by code_simp
  have n: "\<not> sublist (str ''urn:btih:abc'')
       (str ''$magnet:?xt=urn%3Abtih%3Aabc&dn=Title&tr=udp%3A%2F%2Fa.b%3A80'')"
    by code_simp
  have "js_split newline (0xD83D # str ''|Title|Movies|link'') =
          [0xD83D # str ''|Title|Movies|link'']"
    by (rule js_split_no_sep) (simp add: str_def newline_def)
  moreover have "js_split bar (0xD83D # str ''|Title|Movies|link'') =
          [0xD83D] # str ''Title'' # str ''Movies'' # str ''link'' # []"
    by (simp add: str_def bar_def)
  ultimately have e:
    "convertToTorrents (constructor None (Some [str ''udp://a.b:80'']))
       (0xD83D # str ''|Title|Movies|link'') = Inl URIError"
    by (simp add: convertToTorrents_def convertChunk_eq qsEscape_urn_lone)
  show ?thesis using r n e by auto
qed

text \<open>
  Claim C5, as amended. For every well-formed chunk, and well-formed trackers,
  \<open>_convertChunk\<close> returns a record and does not raise. With \<open>fs\<close> the fields of
  the chunk, the hash is the first field, and the title, the category and the link are
  the second, third and fourth field where the chunk has them and \<open>undefined\<close> where
  it has fewer. Fields beyond the fourth are ignored: the chunk cut down to its first
  four fields converts to the same record.
\<close>

theorem short_line_fields:
  assumes "wellformed chunk" "list_all wellformed (trackers this)"
    and "fs = js_split bar chunk"
  shows "\<exists>t. convertChunk this chunk = Inr t \<and>
     hash t = Some (fs ! 0) \<and>
     title t = (if 1 < length fs then Some (fs ! 1) else None) \<and>
     category t = (if 2 < length fs then Some (fs ! 2) else None) \<and>
     link t = (if 3 < length fs then Some (fs ! 3) else None) \<and>
     convertChunk this (join bar (take 4 fs)) = Inr t"
proof -
  obtain t where t: "convertChunk this chunk = Inr t"
    "hash t = Some (hd (js_split bar chunk))" "title t = at_index (js_split bar chunk) 1"
    "category t = at_index (js_split bar chunk) 2" "link t = at_index (js_split bar chunk) 3"
    using convertChunk_returns [OF assms(1,2)] by auto
  have "hd fs = fs ! 0"
    using js_split_nonempty [of bar chunk] assms(3) by (simp add: hd_conv_nth)
  then show ?thesis
    using t assms(3) by (simp add: at_index_def convertChunk_first_four)
qed

theorem short_line_fields_witness:
  "wellformed (str ''abc|Title'') \<and>
   list_all wellformed (trackers (constructor None None)) \<and>
   str ''abc'' # str ''Title'' # [] = js_split bar (str ''abc|Title'') \<and>
   (\<exists>t. convertChunk (constructor None None) (str ''abc|Title'') = Inr t \<and>
     hash t = Some (str ''abc'') \<and> title t = Some (str ''Title'') \<and>
     category t = None \<and> link t = None)"
proof -
  have 1: "wellformed (str ''abc|Title'')"
    by (rule wellformed_str)
  have 2: "list_all wellformed (trackers (constructor None None))"
    by (simp add: trackers_constructor wellformed_defaultTrackers)
  have 3: "str ''abc'' # str ''Title'' # [] = js_split bar (str ''abc|Title'')"
    by (simp add: str_def bar_def)
  have "\<exists>t. convertChunk (constructor None None) (str ''abc|Title'') = Inr t \<and>
     hash t = Some (str ''abc'') \<and> title t = Some (str ''Title'') \<and>
     category t = None \<and> link t = None"
    using short_line_fields [OF 1 2 3] by auto
  then show ?thesis
    using 1 2 3 by (intro conjI)
qed

theorem short_line_fields_counterexample:
  "js_split bar (str ''abc|'' @ [0xD83D]) = str ''abc'' # [0xD83D] # [] \<and>
   convertChunk (constructor None None) (str ''abc|'' @ [0xD83D]) = Inl URIError"
proof -
  have line: "js_split bar (str ''abc|'' @ [0xD83D]) = str ''abc'' # [0xD83D] # []"
    by (simp add: str_def bar_def)
  have "convertChunk (constructor None None) (str ''abc|'' @ [0xD83D]) = Inl URIError"
    unfolding convertChunk_eq line
    by (simp add: Let_def at_index_def stringifyPrimitive_def qsEscape_lone only_error
          split: sum.splits)
  then show ?thesis using line by simp
qed

text \<open>
  Claim C6. A text that holds nothing but newlines, the empty text among them, parses
  to the empty sequence of records, whatever the client: every piece between two
  newlines is the empty string and is dropped before any conversion is tried.
\<close>

theorem blank_text_no_records:
  assumes "set res \<subseteq> {newline}"
  shows "convertToTorrents this res = Inr []"
proof -
  have "filter (\<lambda>line. line \<noteq> []) (js_split newline res) = []"
    using js_split_blank [OF assms] by (auto simp: filter_empty_conv)
  then show ?thesis by (simp add: convertToTorrents_def)
qed

theorem blank_text_no_records_witness:
  "set [newline, newline, newline] \<subseteq> {newline} \<and>
   convertToTorrents (constructor None None) [newline, newline, newline] = Inr []"
  using blank_text_no_records [of "[newline, newline, newline]" "constructor None None"] by simp

text \<open>
  Claim C7. A transport failure is to reject the promise of \<open>getDaily\<close> and \<open>getFull\<close>.
  A refused connection is an \<open>error\<close> event of the request, on which \<open>_get\<close> has no
  listener: the error is thrown out of the emitter, and the promise stays pending for
  ever, neither rejected nor resolved.
\<close>

theorem refused_connection_never_rejects:
  "getDaily (constructor None None) [RequestError (str ''connect ECONNREFUSED'')] = Pending \<and>
   getFull (constructor None None) [RequestError (str ''connect ECONNREFUSED'')] = Pending \<and>
   uncaught (get [RequestError (str ''connect ECONNREFUSED'')]) = [str ''connect ECONNREFUSED'']"
  by (simp add: getDaily_def getFull_def getFile_def get_def then_promise_def)

text \<open>
  Claim C8. Parsing is a function of the client's configuration and the text alone. Its
  records are the conversions of the non-empty lines, one for each, in the order of the
  lines, so that a repeated line gives a repeated record; and parsing two texts joined
  by a newline is parsing the first, then the second, and appending the results: no
  record depends on another line.
\<close>

theorem records_follow_lines:
  "(convertToTorrents this res = Inr ts \<longrightarrow>
      map Inr ts = map (convertChunk this) (filter (\<lambda>line. line \<noteq> []) (js_split newline res))) \<and>
   convertToTorrents this (a @ newline # b) =
     (case convertToTorrents this a of
        Inl e \<Rightarrow> Inl e
      | Inr as \<Rightarrow>
          (case convertToTorrents this b of Inl e \<Rightarrow> Inl e | Inr bs \<Rightarrow> Inr (as @ bs)))"
  by (auto simp: convertToTorrents_def map_throwing_Inr js_split_concat map_throwing_append
        split: sum.splits)

theorem records_follow_lines_witness:
  "(convertToTorrents (constructor None (Some [str ''udp://a.b:80'']))
      (str ''abc|T'' @ newline # str ''abc|T'') =
      Inr [\<lparr> hash = Some (str ''abc''), title = Some (str ''T''), category = None, link = None,
             magnet = Some (str ''$magnet:?xt=urn%3Abtih%3Aabc&dn=T&tr=udp%3A%2F%2Fa.b%3A80'') \<rparr>,
           \<lparr> hash = Some (str ''abc''), title = Some (str ''T''), category = None, link = None,
             magnet = Some (str ''$magnet:?xt=urn%3Abtih%3Aabc&dn=T&tr=udp%3A%2F%2Fa.b%3A80'') \<rparr>]) \<and>
   map Inr
      [\<lparr> hash = Some (str ''abc''), title = Some (str ''T''), category = None, link = None,
         magnet = Some (str ''$magnet:?xt=urn%3Abtih%3Aabc&dn=T&tr=udp%3A%2F%2Fa.b%3A80'') \<rparr>,
       \<lparr> hash = Some (str ''abc''), title = Some (str ''T''), category = None, link = None,
         magnet = Some (str ''$magnet:?xt=urn%3Abtih%3Aabc&dn=T&tr=udp%3A%2F%2Fa.b%3A80'') \<rparr>] =
     map (convertChunk (constructor None (Some [str ''udp://a.b:80''])))
       (filter (\<lambda>line. line \<noteq> []) (js_split newline (str ''abc|T'' @ newline # str ''abc|T'')))"
proof -
  have h: "convertToTorrents (constructor None (Some [str ''udp://a.b:80'']))
      (str ''abc|T'' @ newline # str ''abc|T'') =
      Inr [\<lparr> hash = Some (str ''abc''), title = Some (str ''T''), category = None, link = None,
             magnet = Some (str ''$magnet:?xt=urn%3Abtih%3Aabc&dn=T&tr=udp%3A%2F%2Fa.b%3A80'') \<rparr>,
           \<lparr> hash = Some (str ''abc''), title = Some (str ''T''), category = None, link = None,
             magnet = Some (str ''$magnet:?xt=urn%3Abtih%3Aabc&dn=T&tr=udp%3A%2F%2Fa.b%3A80'') \<rparr>]"
    by code_simp
  show ?thesis
    using h records_follow_lines [THEN conjunct1, THEN mp, OF h] by (rule conjI)
qed

text \<open>
  Claim C9, as amended. Only the empty string is dropped as a line: a non-empty line
  made of white space alone is kept, whatever the client. When the configured trackers
  are well-formed UTF-16, parsing it yields one record whose hash is the line itself.
  With a tracker that is an unpaired surrogate, parsing the line of one space throws.
\<close>

theorem whitespace_line_kept:
  assumes "w \<noteq> []" "list_all whitespace w" "newline \<notin> set w"
  shows "filter (\<lambda>line. line \<noteq> []) (js_split newline w) = [w] \<and>
         (list_all wellformed (trackers this) \<longrightarrow>
            (\<exists>t. convertToTorrents this w = Inr [t] \<and> hash t = Some w))"
proof -
  have lines: "filter (\<lambda>line. line \<noteq> []) (js_split newline w) = [w]"
    using assms(1,3) by (simp add: js_split_no_sep)
  have "bar \<notin> set w"
    using assms(2) whitespace_facts by (auto simp: list_all_iff)
  then have fields: "js_split bar w = [w]" by (rule js_split_no_sep)
  have wf: "wellformed w"
    using assms(2) by (simp add: wellformed_def whitespace_paired)
  have "\<exists>t. convertToTorrents this w = Inr [t] \<and> hash t = Some w"
    if tr: "list_all wellformed (trackers this)"
  proof -
    obtain t where "convertChunk this w = Inr t" "hash t = Some w"
      using convertChunk_returns [OF wf tr] unfolding fields by auto
    then show ?thesis
      using lines by (simp add: convertToTorrents_def)
  qed
  then show ?thesis using lines by blast
qed

theorem whitespace_line_kept_witness:
  "str '' '' \<noteq> [] \<and> list_all whitespace (str '' '') \<and> newline \<notin> set (str '' '') \<and>
   list_all wellformed (trackers (constructor None None)) \<and>
   filter (\<lambda>line. line \<noteq> []) (js_split newline (str '' '')) = [str '' ''] \<and>
   (\<exists>t. convertToTorrents (constructor None None) (str '' '') = Inr [t] \<and>
        hash t = Some (str '' ''))"
proof -
  have 1: "str '' '' \<noteq> []" by (simp add: str_def)
  have 2: "list_all whitespace (str '' '')" by (simp add: str_def whitespace_def)
  have 3: "newline \<notin> set (str '' '')" by (simp add: str_def newline_def)
  have 4: "list_all wellformed (trackers (constructor None None))"
    by (simp add: trackers_constructor wellformed_defaultTrackers)
  have 5: "filter (\<lambda>line. line \<noteq> []) (js_split newline (str '' '')) = [str '' '']"
    using whitespace_line_kept [OF 1 2 3, of "constructor None None"] by blast
  have 6: "\<exists>t. convertToTorrents (constructor None None) (str '' '') = Inr [t] \<and>
            hash t = Some (str '' '')"
    using whitespace_line_kept [OF 1 2 3, of "constructor None None"] 4 by blast
  show ?thesis
    using 1 2 3 4 5 6 by (intro conjI)
qed

theorem whitespace_line_kept_counterexample:
  "str '' '' \<noteq> [] \<and> list_all whitespace (str '' '') \<and> newline \<notin> set (str '' '') \<and>
   convertToTorrents (constructor None (Some ([0xDC00] # []))) (str '' '') = Inl URIError"
proof -
  have 1: "str '' '' \<noteq> []" by (simp add: str_def)
  have 2: "list_all whitespace (str '' '')" by (simp add: str_def whitespace_def)
  have 3: "newline \<notin> set (str '' '')" by (simp add: str_def newline_def)
  have lines: "js_split newline (str '' '') = [str '' '']"
    using 3 by (rule js_split_no_sep)
  have fields: "js_split bar (str '' '') = [str '' '']"
    by (rule js_split_no_sep) (simp add: str_def bar_def)
  have tr: "qsEscape [0xDC00] = Inl URIError"
    by (simp add: qsEscape_def Let_def)
  have "convertChunk (constructor None (Some ([0xDC00] # []))) (str '' '') = Inl URIError"
    unfolding convertChunk_eq fields
    by (simp add: Let_def trackers_constructor tr only_error split: sum.splits)
  then have 4: "convertToTorrents (constructor None (Some ([0xDC00] # []))) (str '' '') =
      Inl URIError"
    using 1 by (simp add: convertToTorrents_def lines)
  show ?thesis
    using 1 2 3 4 by (intro conjI)
qed

text \<open>
  Claim C10, as amended. For every chunk without a bar, a record that \<open>_convertChunk\<close>
  produces has title, category and link \<open>undefined\<close>, and its magnet still has the
  \<open>dn\<close> parameter, second in the query string, with the empty value. Magnet
  construction raises for no chunk that is well-formed UTF-16, the trackers being
  well-formed too. At the chunk that is the one unit \<open>D83D\<close> it throws.
\<close>

theorem single_field_magnet:
  "(wellformed chunk \<and> list_all wellformed (trackers this) \<longrightarrow>
      (\<exists>r. convertChunk this chunk = Inr r)) \<and>
   (bar \<notin> set chunk \<and> convertChunk this chunk = Inr t \<longrightarrow>
      hash t = Some chunk \<and> title t = None \<and> category t = None \<and> link t = None \<and>
      (\<exists>qs ex ets.
         magnet t = Some (str ''$magnet:?'' @ qs) \<and>
         js_split amp qs = (str ''xt='' @ ex) # str ''dn='' # map ((@) (str ''tr='')) ets \<and>
         qsEscape (str ''urn:btih:'' @ chunk) = Inr ex \<and>
         map qsEscape (trackers this) = map Inr ets))"
proof (intro conjI impI)
  assume "wellformed chunk \<and> list_all wellformed (trackers this)"
  then show "\<exists>r. convertChunk this chunk = Inr r"
    using convertChunk_returns [of chunk this] by blast
next
  assume a: "bar \<notin> set chunk \<and> convertChunk this chunk = Inr t"
  then have line: "js_split bar chunk = [chunk]"
    by (simp add: js_split_no_sep)
  obtain ex ed ets where
    ex: "qsEscape (str ''urn:btih:'' @ chunk) = Inr ex" and
    ed: "qsEscape (stringifyPrimitive (at_index [chunk] 1)) = Inr ed" and
    ets: "map_throwing qsEscape (trackers this) = Inr ets" and
    t: "t = \<lparr> hash = Some chunk, title = at_index [chunk] 1,
              category = at_index [chunk] 2, link = at_index [chunk] 3,
              magnet = Some (str ''$magnet:?'' @
                join amp ((str ''xt='' @ ex) # (str ''dn='' @ ed) #
                  map ((@) (str ''tr='')) ets)) \<rparr>"
    using a unfolding convertChunk_eq line Let_def by (auto split: sum.splits)
  have "ed = []"
    using ed by (simp add: at_index_def stringifyPrimitive_def qsEscape_def)
  then have split: "js_split amp (join amp ((str ''xt='' @ ex) # (str ''dn='' @ ed) #
        map ((@) (str ''tr='')) ets)) =
      (str ''xt='' @ ex) # str ''dn='' # map ((@) (str ''tr='')) ets"
    using query_fields [OF ex ed ets] by simp
  show "hash t = Some chunk" "title t = None" "category t = None" "link t = None"
    using t by (simp_all add: at_index_def)
  show "\<exists>qs ex ets.
         magnet t = Some (str ''$magnet:?'' @ qs) \<and>
         js_split amp qs = (str ''xt='' @ ex) # str ''dn='' # map ((@) (str ''tr='')) ets \<and>
         qsEscape (str ''urn:btih:'' @ chunk) = Inr ex \<and>
         map qsEscape (trackers this) = map Inr ets"
    using t split ex map_throwing_Inr [OF ets] by auto
qed

theorem single_field_magnet_witness:
  "(wellformed (str ''abc'') \<and>
    list_all wellformed (trackers (constructor None (Some [str ''udp://a.b:80''])))) \<and>
   (\<exists>r. convertChunk (constructor None (Some [str ''udp://a.b:80''])) (str ''abc'') = Inr r) \<and>
   (bar \<notin> set (str ''abc'') \<and>
    convertChunk (constructor None (Some [str ''udp://a.b:80''])) (str ''abc'') =
      Inr \<lparr> hash = Some (str ''abc''), title = None, category = None, link = None,
            magnet = Some (str ''$magnet:?xt=urn%3Abtih%3Aabc&dn=&tr=udp%3A%2F%2Fa.b%3A80'') \<rparr>) \<and>
   (\<exists>qs ex ets.
      magnet \<lparr> hash = Some (str ''abc''), title = None, category = None, link = None,
               magnet = Some (str ''$magnet:?xt=urn%3Abtih%3Aabc&dn=&tr=udp%3A%2F%2Fa.b%3A80'') \<rparr> =
        Some (str ''$magnet:?'' @ qs) \<and>
      js_split amp qs = (str ''xt='' @ ex) # str ''dn='' # map ((@) (str ''tr='')) ets \<and>
      qsEscape (str ''urn:btih:'' @ str ''abc'') = Inr ex \<and>
      map qsEscape (trackers (constructor None (Some [str ''udp://a.b:80'']))) = map Inr ets)"
proof -
  have 1: "wellformed (str ''abc'') \<and>
    list_all wellformed (trackers (constructor None (Some [str ''udp://a.b:80''])))"
    by (simp add: trackers_constructor wellformed_str)
  have 2: "bar \<notin> set (str ''abc'') \<and>
    convertChunk (constructor None (Some [str ''udp://a.b:80''])) (str ''abc'') =
      Inr \<lparr> hash = Some (str ''abc''), title = None, category = None, link = None,
            magnet = Some (str ''$magnet:?xt=urn%3Abtih%3Aabc&dn=&tr=udp%3A%2F%2Fa.b%3A80'') \<rparr>"
    by code_simp
  note a = single_field_magnet [THEN conjunct1, THEN mp, OF 1]
  note b = single_field_magnet [THEN conjunct2, THEN mp, OF 2]
  show ?thesis
    using 1 a 2 b by blast
qed

theorem single_field_magnet_counterexample:
  "bar \<notin> set [0xD83D :: code_unit] \<and>
   convertChunk (constructor None None) [0xD83D] = Inl URIError"
  by (simp add: convertChunk_eq js_split_no_sep bar_def qsEscape_urn_lone)

end
